theory Spec2Isabelle
  imports Main
begin

section \<open>Text and numbers as the script formats them\<close>

text \<open>
  The script is \<^verbatim>\<open>mongo-scripts/mongo-backup.py\<close>, one class \<^verbatim>\<open>MongoBackupTool\<close>.
  Database names, path components and generated file names are modelled as \<open>string\<close>;
  text drawn on the terminal is a list of code points (\<open>utext\<close>), because the script
  draws glyphs beyond ASCII and Python's \<^verbatim>\<open>len\<close> counts code points.
\<close>

type_synonym utext = "nat list"

definition ascii :: "string \<Rightarrow> utext" where
  "ascii s = map of_char s"

definition digit_char :: "nat \<Rightarrow> char" where
  "digit_char d = ''0123456789'' ! d"

text \<open>Python's \<^verbatim>\<open>str(n)\<close> for a non-negative integer.\<close>

fun dec :: "nat \<Rightarrow> string" where
  "dec n = (if n < 10 then [digit_char n] else dec (n div 10) @ [digit_char (n mod 10)])"

declare dec.simps [simp del]

text \<open>Python's \<^verbatim>\<open>{n:0wd}\<close> and strftime's zero-padded fields: pad on the left to width \<open>w\<close>.\<close>

definition zero_pad :: "nat \<Rightarrow> nat \<Rightarrow> string" where
  "zero_pad w n = replicate (w - length (dec n)) (CHR ''0'') @ dec n"

definition lower_char :: "char \<Rightarrow> char" where
  "lower_char c =
     (if (65::nat) \<le> of_char c \<and> of_char c \<le> (90::nat) then char_of (of_char c + (32::nat)) else c)"

definition lower :: "string \<Rightarrow> string" where
  "lower s = map lower_char s"


section \<open>The clock\<close>

text \<open>The fields of \<^verbatim>\<open>datetime.now()\<close> the script reads.\<close>

record datetime =
  year :: nat
  month :: nat
  day :: nat
  hour :: nat
  minute :: nat
  second :: nat

text \<open>\<^verbatim>\<open>strftime('%B')\<close> in the C locale; \<^verbatim>\<open>datetime.month\<close> is always in 1..12.\<close>

definition month_name :: "nat \<Rightarrow> string" where
  "month_name m =
     (if m = 1 then ''January'' else if m = 2 then ''February'' else if m = 3 then ''March''
      else if m = 4 then ''April'' else if m = 5 then ''May'' else if m = 6 then ''June''
      else if m = 7 then ''July'' else if m = 8 then ''August'' else if m = 9 then ''September''
      else if m = 10 then ''October'' else if m = 11 then ''November''
      else if m = 12 then ''December'' else [])"

text \<open>\<^verbatim>\<open>strftime('%Y%m%d_%H%M%S')\<close>, the name of the run's directory.\<close>

definition format_timestamp :: "datetime \<Rightarrow> string" where
  "format_timestamp now =
     zero_pad 4 (year now) @ zero_pad 2 (month now) @ zero_pad 2 (day now) @ ''_'' @
     zero_pad 2 (hour now) @ zero_pad 2 (minute now) @ zero_pad 2 (second now)"


section \<open>generate_human_readable_filename\<close>

text \<open>The 12-hour conversion, branch by branch as in the source.\<close>

definition hour_12_period :: "nat \<Rightarrow> nat \<times> string" where
  "hour_12_period h =
     (if h = 0 then (12, ''am'')
      else if h < 12 then (h, ''am'')
      else if h = 12 then (12, ''pm'')
      else (h - 12, ''pm''))"

definition generate_human_readable_filename :: "datetime \<Rightarrow> string" where
  "generate_human_readable_filename now =
     (let month_s = lower (month_name (month now));
          day_n = day now;
          year_n = year now;
          (hour_12, period) = hour_12_period (hour now);
          minute_n = minute now
      in month_s @ ''_'' @ dec day_n @ ''_'' @ dec year_n @ ''_'' @ dec hour_12 @ ''_'' @
         zero_pad 2 minute_n @ ''_'' @ period @ ''.zip'')"

subsection \<open>The file name as the specification words it\<close>

definition spec_hour_12 :: "nat \<Rightarrow> nat" where
  "spec_hour_12 h = (if h = 0 then 12 else if h = 12 then 12 else h mod 12)"

definition spec_period :: "nat \<Rightarrow> string" where
  "spec_period h = (if h < 12 then ''am'' else ''pm'')"

definition spec_two_digits :: "nat \<Rightarrow> string" where
  "spec_two_digits n = [digit_char (n div 10), digit_char (n mod 10)]"

definition spec_filename :: "nat \<Rightarrow> nat \<Rightarrow> nat \<Rightarrow> nat \<Rightarrow> nat \<Rightarrow> string" where
  "spec_filename mo d y h mi =
     lower (month_name mo) @ ''_'' @ dec d @ ''_'' @ dec y @ ''_'' @ dec (spec_hour_12 h) @ ''_'' @
     spec_two_digits mi @ ''_'' @ spec_period h @ ''.zip''"


section \<open>Python lists\<close>

datatype py_error = IndexError | CursesError

text \<open>\<^verbatim>\<open>xs[i]\<close>: a negative index counts from the end; out of range raises IndexError
  (here \<open>None\<close>).\<close>

definition py_index :: "'a list \<Rightarrow> int \<Rightarrow> nat option" where
  "py_index xs i =
     (let n = int (length xs); j = (if i < 0 then n + i else i)
      in if 0 \<le> j \<and> j < n then Some (nat j) else None)"

text \<open>\<^verbatim>\<open>xs[:k]\<close>: a negative \<open>k\<close> drops from the end.\<close>

definition py_take :: "int \<Rightarrow> 'a list \<Rightarrow> 'a list" where
  "py_take k xs = (if 0 \<le> k then take (nat k) xs else take (nat (int (length xs) + k)) xs)"

text \<open>A slice bound clipped into \<open>0..n\<close>, and \<^verbatim>\<open>xs[a:b]\<close>.\<close>

definition py_bound :: "nat \<Rightarrow> int \<Rightarrow> nat" where
  "py_bound n i = (if i < 0 then nat (max 0 (int n + i)) else min n (nat i))"

definition py_slice :: "'a list \<Rightarrow> int \<Rightarrow> int \<Rightarrow> 'a list" where
  "py_slice xs a b =
     (let lo = py_bound (length xs) a; hi = py_bound (length xs) b in take (hi - lo) (drop lo xs))"


section \<open>checkbox_menu: one frame\<close>

text \<open>
  The window is the curses library's, not the script's. A frame is modelled as the list of
  \<^verbatim>\<open>addstr(y, x, text)\<close> calls the loop body makes, in order; \<open>Throw\<close> stands for a Python
  exception raised between two calls.
\<close>

datatype op = Addstr int int utext | Throw py_error

text \<open>
  The library's rule for \<^verbatim>\<open>window.addstr\<close> on a window of \<open>height\<close> rows and \<open>width\<close>
  columns without scrolling: the start cell must lie inside the window, and the text, which
  wraps at the right margin, must end before the bottom-right cell; otherwise the call
  raises \<^verbatim>\<open>curses.error\<close>.
\<close>

definition addstr_ok :: "int \<Rightarrow> int \<Rightarrow> int \<Rightarrow> int \<Rightarrow> utext \<Rightarrow> bool" where
  "addstr_ok height width y x s =
     (0 \<le> y \<and> y < height \<and> 0 \<le> x \<and> x < width \<and>
      y * width + x + int (length s) < height * width)"

text \<open>The text of a call stays on its own row.\<close>

definition fits_row :: "int \<Rightarrow> int \<Rightarrow> utext \<Rightarrow> bool" where
  "fits_row width x s = (0 \<le> x \<and> x + int (length s) \<le> width)"

fun run_ops :: "int \<Rightarrow> int \<Rightarrow> op list \<Rightarrow> py_error option" where
  "run_ops height width [] = None"
| "run_ops height width (Addstr y x s # ops) =
     (if addstr_ok height width y x s then run_ops height width ops else Some CursesError)"
| "run_ops height width (Throw e # ops) = Some e"

definition title :: utext where
  "title = ascii ''MongoDB Backup - Select Databases''"

definition instructions :: utext where
  "instructions =
     [8593] @ ascii ''/'' @ [8595] @
     ascii '' or k/j: Navigate  |  Space: Toggle  |  a: Select All  |  n: Select None  |  Enter: Confirm  |  q: Quit''"

definition rule_glyph :: nat where
  "rule_glyph = 9472"

definition checkbox_on :: utext where
  "checkbox_on = ascii ''['' @ [10003] @ ascii '']''"

definition checkbox_off :: utext where
  "checkbox_off = ascii ''[ ]''"

definition start_row :: int where
  "start_row = 4"

definition max_visible_of :: "int \<Rightarrow> int" where
  "max_visible_of height = height - start_row - 3"

definition scroll_offset :: "nat \<Rightarrow> int \<Rightarrow> int \<Rightarrow> int" where
  "scroll_offset n max_visible current_row =
     (if current_row < max_visible div 2 then 0
      else if current_row > int n - max_visible div 2 then max 0 (int n - max_visible)
      else current_row - max_visible div 2)"

definition item_ops :: "int \<Rightarrow> bool list \<Rightarrow> int \<Rightarrow> int \<Rightarrow> nat \<Rightarrow> string \<Rightarrow> op list" where
  "item_ops width selected current_row scroll idx db =
     (let actual_idx = int idx + scroll in
      case py_index selected actual_idx of
        None \<Rightarrow> [Throw IndexError]
      | Some j \<Rightarrow>
          (let checkbox = (if selected ! j then checkbox_on else checkbox_off);
               line = checkbox @ ascii '' '' @ ascii db;
               y_pos = start_row + int idx
           in if actual_idx = current_row then [Addstr y_pos 2 (py_take (width - 3) line)]
              else if selected ! j
                then [Addstr y_pos 2 checkbox, Addstr y_pos (2 + int (length checkbox) + 1) (ascii db)]
                else [Addstr y_pos 2 (py_take (width - 3) line)]))"

definition footer_text :: "string list \<Rightarrow> bool list \<Rightarrow> utext" where
  "footer_text databases selected =
     (let selected_count = length (filter (\<lambda>b. b) selected)
      in ascii (''Selected: '' @ dec selected_count @ ''/'' @ dec (length databases) @ '' databases''))"

definition render_ops :: "int \<Rightarrow> int \<Rightarrow> string list \<Rightarrow> bool list \<Rightarrow> int \<Rightarrow> op list" where
  "render_ops height width databases selected current_row =
     (let max_visible = max_visible_of height;
          scroll = scroll_offset (length databases) max_visible current_row;
          visible_databases = py_slice databases scroll (scroll + max_visible);
          footer = footer_text databases selected
      in [Addstr 0 ((width - int (length title)) div 2) title,
          Addstr 1 0 (py_take (width - 1) instructions),
          Addstr 2 0 (replicate (nat (width - 1)) rule_glyph)] @
         concat (map (\<lambda>(idx, db). item_ops width selected current_row scroll idx db)
                     (List.enumerate 0 visible_databases)) @
         [Addstr (height - 2) 0 (replicate (nat (width - 1)) rule_glyph),
          Addstr (height - 1) ((width - int (length footer)) div 2) footer])"


section \<open>checkbox_menu: keys and the loop\<close>

text \<open>Key codes of the curses library.\<close>

definition KEY_DOWN :: int where "KEY_DOWN = 258"
definition KEY_UP :: int where "KEY_UP = 259"
definition KEY_NPAGE :: int where "KEY_NPAGE = 338"
definition KEY_PPAGE :: int where "KEY_PPAGE = 339"
definition KEY_ENTER :: int where "KEY_ENTER = 343"

text \<open>What \<^verbatim>\<open>stdscr.getch()\<close> gives: a key code, or the interrupt raised while it blocks.\<close>

datatype input = Key int | KeyboardInterrupt

text \<open>The effect of one key: the loop goes on with a new state, returns, or raises.\<close>

datatype step = Continue "bool list" int | Finish "string list option" | Raise py_error

definition selected_names :: "string list \<Rightarrow> bool list \<Rightarrow> string list" where
  "selected_names databases selected = map fst (filter snd (zip databases selected))"

definition handle_key :: "string list \<Rightarrow> int \<Rightarrow> int \<Rightarrow> bool list \<Rightarrow> int \<Rightarrow> step" where
  "handle_key databases max_visible key selected current_row =
     (if key \<in> set [113, 81, 27] then Finish None
      else if key \<in> set [32] then
        (case py_index selected current_row of
           None \<Rightarrow> Raise IndexError
         | Some j \<Rightarrow> Continue (selected[j := \<not> selected ! j]) current_row)
      else if key \<in> set [97, 65] then Continue (replicate (length databases) True) current_row
      else if key \<in> set [110, 78] then Continue (replicate (length databases) False) current_row
      else if key \<in> set [KEY_UP, 107] then Continue selected (max 0 (current_row - 1))
      else if key \<in> set [KEY_DOWN, 106] then
        Continue selected (min (int (length databases) - 1) (current_row + 1))
      else if key \<in> set [KEY_PPAGE] then Continue selected (max 0 (current_row - max_visible))
      else if key \<in> set [KEY_NPAGE] then
        Continue selected (min (int (length databases) - 1) (current_row + max_visible))
      else if key \<in> set [10, KEY_ENTER, 10, 13] then
        (if length selected < length databases then Raise IndexError
         else (let selected_dbs = selected_names databases selected
               in Finish (if selected_dbs \<noteq> [] then Some selected_dbs else None)))
      else Continue selected current_row)"

text \<open>
  The loop over the frames. Each frame supplies the terminal size \<^verbatim>\<open>getmaxyx\<close> reports
  and the input \<^verbatim>\<open>getch\<close> delivers. \<open>Waiting\<close> is the state in which the loop blocks on
  the next key when the inputs are used up.
\<close>

datatype outcome = Returned "string list option" | Raised py_error | Waiting "bool list" int

fun menu_loop :: "string list \<Rightarrow> bool list \<Rightarrow> int \<Rightarrow> (int \<times> int \<times> input) list \<Rightarrow> outcome" where
  "menu_loop databases selected current_row [] = Waiting selected current_row"
| "menu_loop databases selected current_row ((height, width, inp) # frames) =
     (case run_ops height width (render_ops height width databases selected current_row) of
        Some e \<Rightarrow> Raised e
      | None \<Rightarrow>
          (case inp of
             KeyboardInterrupt \<Rightarrow> Returned None
           | Key key \<Rightarrow>
               (case handle_key databases (max_visible_of height) key selected current_row of
                  Continue selected' current_row' \<Rightarrow> menu_loop databases selected' current_row' frames
                | Finish r \<Rightarrow> Returned r
                | Raise e \<Rightarrow> Raised e)))"

definition checkbox_menu :: "string list \<Rightarrow> (int \<times> int \<times> input) list \<Rightarrow> outcome" where
  "checkbox_menu databases frames = menu_loop databases (replicate (length databases) True) 0 frames"


section \<open>The disk and the outside world\<close>

text \<open>
  Path joining is left abstract: a path is its list of components, \<^verbatim>\<open>os.path.join\<close> appends.
  The disk is the set of paths that exist. The script's progress lines on standard output
  are not modelled; its lines on the error stream are.
\<close>

type_synonym path = "string list"

type_synonym disk = "path set"

definition is_under :: "path \<Rightarrow> path \<Rightarrow> bool" where
  "is_under d q = (take (length d) q = d)"

definition ancestors_and_self :: "path \<Rightarrow> path list" where
  "ancestors_and_self p = map (\<lambda>k. take (Suc k) p) [0..<length p]"

text \<open>\<^verbatim>\<open>os.makedirs(p, exist_ok=True)\<close> and a successful \<^verbatim>\<open>shutil.rmtree(d)\<close>.\<close>

definition makedirs :: "path \<Rightarrow> disk \<Rightarrow> disk" where
  "makedirs p fs = fs \<union> set (ancestors_and_self p)"

definition rmtree :: "path \<Rightarrow> disk \<Rightarrow> disk" where
  "rmtree d fs = {q \<in> fs. \<not> is_under d q}"

text \<open>
  What starting the dump utility gives: the process ran and exited with a return code, an
  error text and the paths it wrote, or the executable was not found (FileNotFoundError).
  These are the two outcomes \<^verbatim>\<open>run_mongodump\<close> handles; the utility only adds paths, and
  \<^verbatim>\<open>os.makedirs\<close> is taken to succeed.
\<close>

datatype launch = Exited int string "path list" | CommandNotFound

text \<open>
  Writing the archive: no call raised, or one (opening the archive, reading or writing a
  file) raised an exception with its text, leaving a partial file or not.
\<close>

datatype zip_result = ZipOk | ZipFailed string bool

text \<open>Removing the tree: done, or an exception with its text after some paths were removed.\<close>

datatype rm_result = RmOk | RmFailed string "path list"

record world =
  dump_response :: "nat \<Rightarrow> launch"
  zip_response :: zip_result
  rmtree_response :: rm_result
  clock_start :: datetime
  clock_zip :: datetime
  unlistable :: "path list"
  regular_file :: "path \<Rightarrow> bool"

text \<open>
  \<open>unlistable\<close> are the directories whose listing fails while the tree is walked, and
  \<open>regular_file\<close> tells which paths are regular files.
\<close>

record tool =
  mongo_url :: string
  output_dir :: path

datatype event =
    Makedirs path
  | Spawn "string list" path
  | ZipWrite path "path set"
  | ZipAbandoned path
  | Rmtree path
  | Stderr string


section \<open>run_mongodump, create_zip_archive, backup_databases\<close>

definition not_found_message :: string where
  "not_found_message =
     ''    Error: 'mongodump' command not found. Please install MongoDB Database Tools.''"

definition mongodump_cmd :: "tool \<Rightarrow> string \<Rightarrow> string \<Rightarrow> event" where
  "mongodump_cmd self database timestamp =
     Spawn [''mongodump'', ''--uri'', mongo_url self, ''--db'', database, ''--out'']
           (output_dir self @ [timestamp])"

definition run_mongodump ::
  "tool \<Rightarrow> launch \<Rightarrow> string \<Rightarrow> string \<Rightarrow> disk \<Rightarrow> bool \<times> event list \<times> disk" where
  "run_mongodump self response database timestamp fs =
     (let output_path = output_dir self @ [timestamp, database];
          fs1 = makedirs output_path fs;
          cmd = mongodump_cmd self database timestamp
      in case response of
           Exited returncode err written \<Rightarrow>
             (if returncode = 0 then (True, [Makedirs output_path, cmd], fs1 \<union> set written)
              else (False, [Makedirs output_path, cmd, Stderr (''    Error: '' @ err)],
                    fs1 \<union> set written))
         | CommandNotFound \<Rightarrow>
             (False, [Makedirs output_path, cmd, Stderr not_found_message], fs1))"

text \<open>
  \<^verbatim>\<open>os.walk(source_dir)\<close> as the script calls it, without an \<^verbatim>\<open>onerror\<close> handler: a
  directory whose listing fails is skipped in silence, with all below it. The files the
  inner loop hands to \<^verbatim>\<open>zipf.write\<close> are the regular files under \<open>source_dir\<close> that the
  walk reaches.
\<close>

definition walk_files :: "world \<Rightarrow> path \<Rightarrow> disk \<Rightarrow> path set" where
  "walk_files w source_dir fs =
     {q \<in> fs. regular_file w q \<and> is_under source_dir q \<and>
              \<not> (\<exists>d \<in> set (unlistable w). is_under d q)}"

text \<open>
  \<open>ZipWrite zip_path files\<close>: the archive was completed at \<open>zip_path\<close> with these files in
  it. \<open>ZipAbandoned zip_path\<close>: an exception ended the \<^verbatim>\<open>try\<close> block.
\<close>

definition create_zip_archive ::
  "tool \<Rightarrow> world \<Rightarrow> path \<Rightarrow> string \<Rightarrow> disk \<Rightarrow> path option \<times> event list \<times> disk" where
  "create_zip_archive self w source_dir zip_filename fs =
     (let zip_path = output_dir self @ [zip_filename]
      in case zip_response w of
           ZipOk \<Rightarrow>
             (Some zip_path, [ZipWrite zip_path (walk_files w source_dir fs)], insert zip_path fs)
         | ZipFailed e partial \<Rightarrow>
             (None, [ZipAbandoned zip_path, Stderr (''    Error creating zip: '' @ e)],
              if partial then insert zip_path fs else fs))"

text \<open>The loop of \<^verbatim>\<open>backup_databases\<close> over the databases; \<open>i\<close> counts the attempts.\<close>

fun dump_loop ::
  "tool \<Rightarrow> (nat \<Rightarrow> launch) \<Rightarrow> string \<Rightarrow> nat \<Rightarrow> string list \<Rightarrow>
   nat \<Rightarrow> string list \<Rightarrow> event list \<Rightarrow> disk \<Rightarrow> nat \<times> string list \<times> event list \<times> disk" where
  "dump_loop self resp timestamp i [] success_count failed_dbs tr fs =
     (success_count, failed_dbs, tr, fs)"
| "dump_loop self resp timestamp i (db # dbs) success_count failed_dbs tr fs =
     (case run_mongodump self (resp i) db timestamp fs of
        (ok, evs, fs') \<Rightarrow>
          if ok then dump_loop self resp timestamp (Suc i) dbs (success_count + 1) failed_dbs
                       (tr @ evs) fs'
          else dump_loop self resp timestamp (Suc i) dbs success_count (failed_dbs @ [db])
                 (tr @ evs) fs')"

text \<open>What the summary prints, with the events of the run and the disk it leaves.\<close>

record report =
  successful :: nat
  total :: nat
  failed :: "string list"
  location :: path
  events :: "event list"
  disk_after :: disk

definition cleanup_warning :: "string \<Rightarrow> string" where
  "cleanup_warning e = ''    Warning: Could not remove temporary backup directory: '' @ e"

definition archive_step ::
  "tool \<Rightarrow> world \<Rightarrow> path \<Rightarrow> bool \<Rightarrow> nat \<Rightarrow> disk \<Rightarrow> path option \<times> event list \<times> disk" where
  "archive_step self w backup_dir create_zip success_count fs =
     (if create_zip \<and> success_count > 0 then
        (let zip_filename = generate_human_readable_filename (clock_zip w)
         in case create_zip_archive self w backup_dir zip_filename fs of
              (Some zip_path, evs, fs') \<Rightarrow>
                (case rmtree_response w of
                   RmOk \<Rightarrow> (Some zip_path, evs @ [Rmtree backup_dir], rmtree backup_dir fs')
                 | RmFailed e removed \<Rightarrow>
                     (Some zip_path, evs @ [Rmtree backup_dir, Stderr (cleanup_warning e)],
                      fs' - set removed))
            | (None, evs, fs') \<Rightarrow> (None, evs, fs'))
      else (None, [], fs))"

text \<open>\<open>None\<close>: the list was empty and the function returned after its one message.\<close>

definition backup_databases :: "tool \<Rightarrow> world \<Rightarrow> string list \<Rightarrow> bool \<Rightarrow> disk \<Rightarrow> report option" where
  "backup_databases self w databases create_zip fs =
     (if databases = [] then None
      else
        (let timestamp = format_timestamp (clock_start w);
             backup_dir = output_dir self @ [timestamp]
         in case dump_loop self (dump_response w) timestamp 0 databases 0 [] [] fs of
              (success_count, failed_dbs, tr, fs1) \<Rightarrow>
                (case archive_step self w backup_dir create_zip success_count fs1 of
                   (zip_path, evs, fs2) \<Rightarrow>
                     Some \<lparr> successful = success_count,
                            total = length databases,
                            failed = failed_dbs,
                            location = (case zip_path of
                                          Some p \<Rightarrow> if create_zip then p else backup_dir
                                        | None \<Rightarrow> backup_dir),
                            events = tr @ evs,
                            disk_after = fs2 \<rparr>)))"

subsection \<open>Reading a run\<close>

text \<open>Whether an attempt counts as a success, and the databases the utility was started for.\<close>

definition succeeded :: "launch \<Rightarrow> bool" where
  "succeeded r = (case r of Exited returncode err written \<Rightarrow> returncode = 0 | CommandNotFound \<Rightarrow> False)"

fun spawned_db :: "event \<Rightarrow> string list" where
  "spawned_db (Spawn [prog, uri_flag, uri, db_flag, db, out_flag] out) = [db]"
| "spawned_db ev = []"

definition spawned_dbs :: "event list \<Rightarrow> string list" where
  "spawned_dbs tr = concat (map spawned_db tr)"

fun stderr_line :: "event \<Rightarrow> string list" where
  "stderr_line (Stderr s) = [s]"
| "stderr_line ev = []"

definition stderr_lines :: "event list \<Rightarrow> string list" where
  "stderr_lines tr = concat (map stderr_line tr)"

definition attempt_results :: "(nat \<Rightarrow> launch) \<Rightarrow> nat \<Rightarrow> string list \<Rightarrow> (string \<times> bool) list" where
  "attempt_results resp i dbs = map (\<lambda>(k, db). (db, succeeded (resp k))) (List.enumerate i dbs)"


text \<open>The figures of the summary: successes, total, failed names, final location.\<close>

definition accounting :: "report \<Rightarrow> nat \<times> nat \<times> string list \<times> path" where
  "accounting r = (successful r, total r, failed r, location r)"

subsection \<open>Example runs\<close>

definition example_tool :: tool where
  "example_tool = \<lparr> mongo_url = ''mongodb://localhost:27017'', output_dir = [''backups''] \<rparr>"

definition example_clock :: datetime where
  "example_clock = \<lparr> year = 2026, month = 11, day = 4, hour = 9, minute = 30, second = 5 \<rparr>"

text \<open>The second start of the utility exits with code 1; every other one exits with 0.\<close>

definition second_fails :: "nat \<Rightarrow> launch" where
  "second_fails i = (if i = 1 then Exited 1 ''connection refused'' [] else Exited 0 [] [])"

text \<open>The utility is not installed.\<close>

definition never_found :: "nat \<Rightarrow> launch" where
  "never_found i = CommandNotFound"

text \<open>The one file a dump writes in the examples.\<close>

definition dump_file :: path where
  "dump_file = [''backups'', ''20261104_093005'', ''a'', ''users.bson'']"

definition is_dump_file :: "path \<Rightarrow> bool" where
  "is_dump_file q = (q = dump_file)"

definition example_world :: "(nat \<Rightarrow> launch) \<Rightarrow> zip_result \<Rightarrow> rm_result \<Rightarrow> world" where
  "example_world d z r =
     \<lparr> dump_response = d, zip_response = z, rmtree_response = r,
       clock_start = example_clock, clock_zip = example_clock,
       unlistable = [], regular_file = is_dump_file \<rparr>"

text \<open>Every start of the utility exits with code 0 after writing \<open>dump_file\<close>.\<close>

definition writes_dump_file :: "nat \<Rightarrow> launch" where
  "writes_dump_file i = Exited 0 [] [dump_file]"

text \<open>
  The dump succeeds; while the tree is walked, listing the directory of database \<open>a\<close>
  fails; no call raises.
\<close>

definition listing_fails_world :: "rm_result \<Rightarrow> world" where
  "listing_fails_world r =
     \<lparr> dump_response = writes_dump_file, zip_response = ZipOk, rmtree_response = r,
       clock_start = example_clock, clock_zip = example_clock,
       unlistable = [[''backups'', ''20261104_093005'', ''a'']], regular_file = is_dump_file \<rparr>"


section \<open>Properties of the file name generator\<close>

lemma length_dec_small: "n < 10 \<Longrightarrow> length (dec n) = 1"
  by (simp add: dec.simps)

lemma dec_two_digits: "10 \<le> n \<Longrightarrow> n < 100 \<Longrightarrow> dec n = [digit_char (n div 10), digit_char (n mod 10)]"
proof -
  assume a: "10 \<le> n" and b: "n < 100"
  from b have "n div 10 < 10" by simp
  then have "dec (n div 10) = [digit_char (n div 10)]" by (simp add: dec.simps)
  with a show ?thesis by (subst dec.simps) simp
qed

lemma zero_pad_two_digits: "n < 100 \<Longrightarrow> zero_pad 2 n = spec_two_digits n"
proof (cases "n < 10")
  case True
  then have "dec n = [digit_char n]" by (simp add: dec.simps)
  with True show ?thesis
    by (simp add: zero_pad_def spec_two_digits_def digit_char_def numeral_2_eq_2)
next
  case False
  assume "n < 100"
  with False have "dec n = [digit_char (n div 10), digit_char (n mod 10)]"
    by (simp add: dec_two_digits)
  then show ?thesis by (simp add: zero_pad_def spec_two_digits_def)
qed

lemma hour_12_period_spec: "h < 24 \<Longrightarrow> hour_12_period h = (spec_hour_12 h, spec_period h)"
  by (auto simp: hour_12_period_def spec_hour_12_def spec_period_def mod_if)

lemma spec_hour_12_range: "h < 24 \<Longrightarrow> 1 \<le> spec_hour_12 h \<and> spec_hour_12 h \<le> 12"
proof -
  assume "h < 24"
  have upper: "h mod 12 < 12" by simp
  have lower: "h \<noteq> 0 \<Longrightarrow> h \<noteq> 12 \<Longrightarrow> 1 \<le> h mod 12"
    using \<open>h < 24\<close> by presburger
  show ?thesis
    unfolding spec_hour_12_def using upper lower by auto
qed

text \<open>
  Claim C8. The file name is a function of month, day, year, hour and minute alone and has
  the form \<open>month_day_year_hour12_minute_period.zip\<close>: for every hour of the day below 24
  and minute below 60 the source's branches give the name the specification words, where
  hour 0 and hour 12 map to 12, every other hour to its remainder modulo 12 (between 1 and
  11), the period is am below 12 and pm from 12 on, and the minute has exactly two digits.
\<close>

theorem filename_matches_spec:
  assumes "hour now < 24" and "minute now < 60"
  shows "generate_human_readable_filename now =
           spec_filename (month now) (day now) (year now) (hour now) (minute now)
         \<and> 1 \<le> spec_hour_12 (hour now) \<and> spec_hour_12 (hour now) \<le> 12
         \<and> length (spec_two_digits (minute now)) = 2"
proof -
  from assms(2) have pad: "zero_pad 2 (minute now) = spec_two_digits (minute now)"
    by (simp add: zero_pad_two_digits)
  from assms(1) have hp: "hour_12_period (hour now) = (spec_hour_12 (hour now), spec_period (hour now))"
    by (rule hour_12_period_spec)
  have "generate_human_readable_filename now =
           spec_filename (month now) (day now) (year now) (hour now) (minute now)"
    by (simp add: generate_human_readable_filename_def spec_filename_def hp pad)
  moreover have "length (spec_two_digits (minute now)) = 2"
    by (simp add: spec_two_digits_def)
  ultimately show ?thesis using spec_hour_12_range [OF assms(1)] by simp
qed

theorem filename_matches_spec_witness:
  "hour \<lparr>year = 2026, month = 1, day = 5, hour = 0, minute = 5, second = 30\<rparr> < 24
   \<and> minute \<lparr>year = 2026, month = 1, day = 5, hour = 0, minute = 5, second = 30\<rparr> < 60
   \<and> generate_human_readable_filename
        \<lparr>year = 2026, month = 1, day = 5, hour = 0, minute = 5, second = 30\<rparr>
      = ''january_5_2026_12_05_am.zip''
   \<and> spec_filename 1 5 2026 0 5 = ''january_5_2026_12_05_am.zip''"
proof -
  have s: "spec_filename 1 5 2026 0 5 = ''january_5_2026_12_05_am.zip''" by code_simp
  have h: "hour \<lparr>year = 2026, month = 1, day = 5, hour = 0, minute = 5, second = 30\<rparr> < 24" by simp
  have m: "minute \<lparr>year = 2026, month = 1, day = 5, hour = 0, minute = 5, second = 30\<rparr> < 60" by simp
  show ?thesis using filename_matches_spec [OF h m] s by simp
qed

text \<open>The afternoon examples of the specification: 13 o'clock is 1 pm, noon is 12 pm.\<close>

lemma filename_examples:
  "generate_human_readable_filename
     \<lparr>year = 2026, month = 11, day = 4, hour = 13, minute = 0, second = 0\<rparr>
     = ''november_4_2026_1_00_pm.zip''"
  "generate_human_readable_filename
     \<lparr>year = 2026, month = 11, day = 4, hour = 12, minute = 59, second = 0\<rparr>
     = ''november_4_2026_12_59_pm.zip''"
  by code_simp+


section \<open>Properties of the checkbox selector\<close>

subsection \<open>Single keys\<close>

lemma selected_names_all: "selected_names dbs (replicate (length dbs) True) = dbs"
  by (induction dbs) (simp_all add: selected_names_def)

lemma selected_names_none: "True \<notin> set selected \<Longrightarrow> selected_names dbs selected = []"
  by (auto simp: selected_names_def filter_empty_conv dest: set_zip_rightD)

lemma handle_all:
  "key \<in> {97, 65} \<Longrightarrow>
   handle_key dbs mv key selected cur = Continue (replicate (length dbs) True) cur"
  by (auto simp: handle_key_def)

lemma handle_none:
  "key \<in> {110, 78} \<Longrightarrow>
   handle_key dbs mv key selected cur = Continue (replicate (length dbs) False) cur"
  by (auto simp: handle_key_def)

lemma handle_confirm:
  "key \<in> {10, 13, KEY_ENTER} \<Longrightarrow> length dbs \<le> length selected \<Longrightarrow>
   handle_key dbs mv key selected cur =
     Finish (if selected_names dbs selected \<noteq> [] then Some (selected_names dbs selected) else None)"
  by (auto simp: handle_key_def KEY_ENTER_def KEY_UP_def KEY_DOWN_def KEY_PPAGE_def KEY_NPAGE_def
        Let_def)

lemma handle_toggle:
  "handle_key dbs mv 32 selected cur =
     (case py_index selected cur of
        None \<Rightarrow> Raise IndexError
      | Some j \<Rightarrow> Continue (selected[j := \<not> selected ! j]) cur)"
  by (simp add: handle_key_def)

lemma py_index_valid:
  "- int (length xs) \<le> i \<Longrightarrow> i < int (length xs) \<Longrightarrow>
   \<exists>j. py_index xs i = Some j \<and> j < length xs"
  by (auto simp: py_index_def Let_def)

lemma py_index_update: "py_index (xs[j := v]) i = py_index xs i"
  by (simp add: py_index_def)

subsection \<open>Frames on concrete terminals\<close>

lemma length_title: "length title = 33"
  by (simp add: title_def ascii_def)

lemma length_instructions: "length instructions = 106"
  by (simp add: instructions_def ascii_def)

lemma dec_digit: "n < 10 \<Longrightarrow> dec n = [digit_char n]"
  by (simp add: dec.simps)

lemma length_footer_one: "length (footer_text [db] [b]) = 23"
  by (cases b) (simp_all add: footer_text_def ascii_def dec_digit)

lemma render_ops_first:
  "render_ops height width databases selected current_row =
     Addstr 0 ((width - int (length title)) div 2) title #
     tl (render_ops height width databases selected current_row)"
  by (simp add: render_ops_def Let_def)

text \<open>A terminal of 24 rows and 120 columns, one database, the cursor on it.\<close>

lemma max_visible_24: "max_visible_of 24 = 17"
  by (simp add: max_visible_of_def start_row_def)

lemma scroll_24: "scroll_offset (Suc 0) 17 0 = 0"
  by (simp add: scroll_offset_def)

lemma slice_24: "py_slice [db] 0 17 = [db]"
  by (simp add: py_slice_def py_bound_def)

lemma item_one:
  "item_ops 120 [b] 0 0 0 ''db'' =
     [Addstr 4 2 ((if b then checkbox_on else checkbox_off) @ ascii '' '' @ ascii ''db'')]"
  by (simp add: item_ops_def py_index_def start_row_def py_take_def checkbox_on_def
        checkbox_off_def ascii_def)

lemma render_one:
  "render_ops 24 120 [''db''] [b] 0 =
     [Addstr 0 43 title, Addstr 1 0 instructions, Addstr 2 0 (replicate 119 rule_glyph),
      Addstr 4 2 ((if b then checkbox_on else checkbox_off) @ ascii '' '' @ ascii ''db''),
      Addstr 22 0 (replicate 119 rule_glyph), Addstr 23 48 (footer_text [''db''] [b])]"
  by (simp add: render_ops_def max_visible_24 scroll_24 slice_24 item_one length_title
        length_footer_one py_take_def length_instructions)

lemma render_ok_one: "run_ops 24 120 (render_ops 24 120 [''db''] [b] 0) = None"
  by (simp add: render_one addstr_ok_def length_title length_instructions length_footer_one
        checkbox_on_def checkbox_off_def ascii_def)

text \<open>A terminal of 6 rows and 120 columns: no row is left for the list.\<close>

lemma max_visible_6: "max_visible_of 6 = - 1"
  by (simp add: max_visible_of_def start_row_def)

lemma scroll_6_at_0: "scroll_offset (Suc 0) (- 1) 0 = 1"
  by (simp add: scroll_offset_def)

lemma scroll_6_at_1: "scroll_offset (Suc 0) (- 1) 1 = 2"
  by (simp add: scroll_offset_def)

lemma slice_6_at_0: "py_slice [''db''] 1 0 = []"
  by (simp add: py_slice_def py_bound_def)

lemma slice_6_at_1: "py_slice [''db''] 2 1 = []"
  by (simp add: py_slice_def py_bound_def)

lemma render_short_at_0:
  "render_ops 6 120 [''db''] [True] 0 =
     [Addstr 0 43 title, Addstr 1 0 instructions, Addstr 2 0 (replicate 119 rule_glyph),
      Addstr 4 0 (replicate 119 rule_glyph), Addstr 5 48 (footer_text [''db''] [True])]"
  by (simp add: render_ops_def max_visible_6 scroll_6_at_0 slice_6_at_0 length_title
        length_footer_one py_take_def length_instructions)

lemma render_short_at_1:
  "render_ops 6 120 [''db''] [True] 1 =
     [Addstr 0 43 title, Addstr 1 0 instructions, Addstr 2 0 (replicate 119 rule_glyph),
      Addstr 4 0 (replicate 119 rule_glyph), Addstr 5 48 (footer_text [''db''] [True])]"
  by (simp add: render_ops_def max_visible_6 scroll_6_at_1 slice_6_at_1 length_title
        length_footer_one py_take_def length_instructions)

lemma render_ok_short_at_0: "run_ops 6 120 (render_ops 6 120 [''db''] [True] 0) = None"
  by (simp add: render_short_at_0 addstr_ok_def length_title length_instructions length_footer_one)

lemma render_ok_short_at_1: "run_ops 6 120 (render_ops 6 120 [''db''] [True] 1) = None"
  by (simp add: render_short_at_1 addstr_ok_def length_title length_instructions length_footer_one)

lemma page_up_short: "handle_key [''db''] (- 1) KEY_PPAGE [True] 0 = Continue [True] 1"
  by (simp add: handle_key_def KEY_PPAGE_def KEY_UP_def KEY_DOWN_def)

lemma page_down_short: "handle_key [''db''] (- 1) KEY_NPAGE [True] 0 = Continue [True] (- 1)"
  by (simp add: handle_key_def KEY_PPAGE_def KEY_UP_def KEY_DOWN_def KEY_NPAGE_def)

lemma toggle_out_of_range: "handle_key [''db''] (- 1) 32 [True] 1 = Raise IndexError"
  by (simp add: handle_key_def py_index_def)

text \<open>A terminal of 24 rows and 20 columns: the first call of every frame is refused.\<close>

lemma narrow_raises: "run_ops 24 20 (render_ops 24 20 dbs sel cur) = Some CursesError"
  by (subst render_ops_first) (simp add: length_title addstr_ok_def)

subsection \<open>The cursor\<close>

text \<open>
  On a terminal of at least 7 rows the page size \<open>height - 7\<close> is not negative, and a
  cursor inside \<open>0..N-1\<close> stays inside under every key.
\<close>

lemma cursor_stays_in_range_tall:
  assumes "0 \<le> mv" and "0 \<le> cur" and "cur < int (length dbs)"
    and "handle_key dbs mv key selected cur = Continue s c"
  shows "0 \<le> c \<and> c < int (length dbs)"
  using assms by (auto simp: handle_key_def Let_def split: if_splits option.splits)

text \<open>
  Claim C4 (the cursor stays in \<open>0..N-1\<close> under every key and every terminal height).
  The code clamps page-up only from below and page-down only from above, and the page
  size \<open>height - 7\<close> is negative on a terminal of fewer than 7 rows. With one database
  on a terminal of 6 rows and 120 columns the first frame is drawn without error, page-up
  then moves the cursor from 0 to 1, outside \<open>0..0\<close> (page-down moves it to -1), and the
  next toggle key raises IndexError.
\<close>

theorem page_key_leaves_range_on_short_terminal:
  "checkbox_menu [''db''] [(6, 120, Key KEY_PPAGE)] = Waiting [True] 1
   \<and> \<not> (1 \<le> int (length [''db'']) - 1)
   \<and> checkbox_menu [''db''] [(6, 120, Key KEY_NPAGE)] = Waiting [True] (- 1)
   \<and> checkbox_menu [''db''] [(6, 120, Key KEY_PPAGE), (6, 120, Key 32)] = Raised IndexError"
  by (simp add: checkbox_menu_def render_ok_short_at_0 render_ok_short_at_1 max_visible_6
        page_up_short page_down_short toggle_out_of_range)

subsection \<open>Width\<close>

text \<open>
  A selected row that is not the cursor row is drawn in two calls, and the second carries
  the whole database name, whatever the width.
\<close>

lemma selected_row_not_truncated:
  assumes "py_index selected (int idx + scroll) = Some j" and "selected ! j"
    and "int idx + scroll \<noteq> cur"
  shows "item_ops width selected cur scroll idx db =
           [Addstr (start_row + int idx) 2 checkbox_on,
            Addstr (start_row + int idx) 6 (ascii db)]"
  using assms by (simp add: item_ops_def Let_def checkbox_on_def ascii_def)

text \<open>
  Claim C5 (every line is truncated to the width; nothing wraps or raises). The code cuts
  the instruction line and the cursor row to the width, but not the header, the footer or
  the name of a selected row. On a terminal of 24 rows and 20 columns the first call of
  the first frame draws the 33 characters of the header at column -7: the text is longer
  than the row, the library refuses the call, and the selector ends in
  \<^verbatim>\<open>curses.error\<close>.
\<close>

theorem narrow_terminal_not_truncated:
  "hd (render_ops 24 20 [''db''] [True] 0) = Addstr 0 (- 7) title
   \<and> length title = 33
   \<and> \<not> fits_row 20 (- 7) title
   \<and> \<not> addstr_ok 24 20 0 (- 7) title
   \<and> checkbox_menu [''db''] [(24, 20, Key 10)] = Raised CursesError"
proof -
  have "hd (render_ops 24 20 [''db''] [True] 0) = Addstr 0 (- 7) title"
    by (subst render_ops_first) (simp add: length_title)
  moreover have "checkbox_menu [''db''] [(24, 20, Key 10)] = Raised CursesError"
    by (simp add: checkbox_menu_def narrow_raises)
  ultimately show ?thesis
    by (simp add: length_title fits_row_def addstr_ok_def)
qed

subsection \<open>Select none, select all, toggle\<close>

text \<open>
  Claim C6. The select-none key (\<open>n\<close> or \<open>N\<close>) sets every entry to false, from any state;
  the confirm key (Enter, code 10, 13 or \<open>KEY_ENTER\<close>) in that state returns Cancelled
  (\<open>None\<close>), not the empty list; so the selector returns Cancelled after the two keys
  whenever the two frames are drawn without error. In general confirm returns Cancelled
  whenever no entry of the selection array is true.
\<close>

theorem select_none_then_confirm_cancels:
  assumes "key_none \<in> {110, 78}" and "key_confirm \<in> {10, 13, KEY_ENTER}"
  shows "handle_key dbs mv key_none selected cur = Continue (replicate (length dbs) False) cur
       \<and> handle_key dbs mv' key_confirm (replicate (length dbs) False) cur = Finish None
       \<and> (run_ops h1 w1 (render_ops h1 w1 dbs selected cur) = None \<longrightarrow>
          run_ops h2 w2 (render_ops h2 w2 dbs (replicate (length dbs) False) cur) = None \<longrightarrow>
          menu_loop dbs selected cur ((h1, w1, Key key_none) # (h2, w2, Key key_confirm) # rest)
            = Returned None)
       \<and> (length dbs \<le> length sel' \<longrightarrow> True \<notin> set sel' \<longrightarrow>
          handle_key dbs mv' key_confirm sel' cur' = Finish None)"
proof -
  have none: "\<And>m. handle_key dbs m key_none selected cur = Continue (replicate (length dbs) False) cur"
    using assms(1) by (rule handle_none)
  have names: "selected_names dbs (replicate (length dbs) False) = []"
    by (rule selected_names_none) simp
  have confirm: "\<And>m. handle_key dbs m key_confirm (replicate (length dbs) False) cur = Finish None"
    using handle_confirm [OF assms(2), of dbs "replicate (length dbs) False"] names by simp
  have general: "length dbs \<le> length sel' \<Longrightarrow> True \<notin> set sel' \<Longrightarrow>
      handle_key dbs mv' key_confirm sel' cur' = Finish None"
    using handle_confirm [OF assms(2), of dbs sel'] selected_names_none [of sel' dbs] by simp
  show ?thesis using none confirm general by simp
qed

theorem select_none_then_confirm_cancels_witness:
  "(110::int) \<in> {110, 78} \<and> (10::int) \<in> {10, 13, KEY_ENTER}
   \<and> run_ops 24 120 (render_ops 24 120 [''db''] [True] 0) = None
   \<and> run_ops 24 120 (render_ops 24 120 [''db''] (replicate (length [''db'']) False) 0) = None
   \<and> length [''db''] \<le> length [False] \<and> True \<notin> set [False]
   \<and> menu_loop [''db''] [True] 0 [(24, 120, Key 110), (24, 120, Key 10)] = Returned None
   \<and> checkbox_menu [''db''] [(24, 120, Key 110), (24, 120, Key 10)] = Returned None
   \<and> handle_key [''db''] 17 10 [False] 0 = Finish None"
proof -
  have k1: "(110::int) \<in> {110, 78}" by simp
  have k2: "(10::int) \<in> {10, 13, KEY_ENTER}" by simp
  have r1: "run_ops 24 120 (render_ops 24 120 [''db''] [True] 0) = None" by (rule render_ok_one)
  have r2: "run_ops 24 120 (render_ops 24 120 [''db''] (replicate (length [''db'']) False) 0) = None"
    using render_ok_one [of False] by simp
  show ?thesis
    using select_none_then_confirm_cancels [OF k1 k2, of "[''db'']" 17 "[True]" 0 17 24 120 24 120 "[]" "[False]" 0]
      r1 r2 by (simp add: checkbox_menu_def)
qed

text \<open>
  Claim C7. For a non-empty list and any prior selection and cursor, the select-all key
  (\<open>a\<close> or \<open>A\<close>) sets every entry to true and the confirm key then returns exactly the
  input names in their order; so the selector returns them after the two keys whenever
  the two frames are drawn without error.
\<close>

theorem select_all_then_confirm_returns_all:
  assumes "dbs \<noteq> []" and "key_all \<in> {97, 65}" and "key_confirm \<in> {10, 13, KEY_ENTER}"
  shows "handle_key dbs mv key_all selected cur = Continue (replicate (length dbs) True) cur
       \<and> handle_key dbs mv' key_confirm (replicate (length dbs) True) cur = Finish (Some dbs)
       \<and> (run_ops h1 w1 (render_ops h1 w1 dbs selected cur) = None \<longrightarrow>
          run_ops h2 w2 (render_ops h2 w2 dbs (replicate (length dbs) True) cur) = None \<longrightarrow>
          menu_loop dbs selected cur ((h1, w1, Key key_all) # (h2, w2, Key key_confirm) # rest)
            = Returned (Some dbs))"
proof -
  have all: "\<And>m. handle_key dbs m key_all selected cur = Continue (replicate (length dbs) True) cur"
    using assms(2) by (rule handle_all)
  have confirm: "\<And>m. handle_key dbs m key_confirm (replicate (length dbs) True) cur = Finish (Some dbs)"
    using handle_confirm [OF assms(3), of dbs "replicate (length dbs) True"] assms(1)
    by (simp add: selected_names_all)
  show ?thesis using all confirm by simp
qed

theorem select_all_then_confirm_returns_all_witness:
  "[''db''] \<noteq> [] \<and> (97::int) \<in> {97, 65} \<and> (13::int) \<in> {10, 13, KEY_ENTER}
   \<and> run_ops 24 120 (render_ops 24 120 [''db''] [False] 0) = None
   \<and> run_ops 24 120 (render_ops 24 120 [''db''] (replicate (length [''db'']) True) 0) = None
   \<and> menu_loop [''db''] [False] 0 [(24, 120, Key 97), (24, 120, Key 13)] = Returned (Some [''db''])"
proof -
  have d: "[''db''] \<noteq> []" by simp
  have k1: "(97::int) \<in> {97, 65}" by simp
  have k2: "(13::int) \<in> {10, 13, KEY_ENTER}" by simp
  have r1: "run_ops 24 120 (render_ops 24 120 [''db''] [False] 0) = None" by (rule render_ok_one)
  have r2: "run_ops 24 120 (render_ops 24 120 [''db''] (replicate (length [''db'']) True) 0) = None"
    using render_ok_one [of True] by simp
  show ?thesis
    using select_all_then_confirm_returns_all [OF d k1 k2, of 17 "[False]" 0 17 24 120 24 120 "[]"]
      r1 r2 by simp
qed

text \<open>
  Claim C9. At a cursor position that indexes the selection array, the toggle key (space)
  leaves the cursor and the length alone, and a second toggle at the same position gives
  back the original selection.
\<close>

theorem double_toggle_identity:
  assumes "- int (length selected) \<le> cur" and "cur < int (length selected)"
  shows "case handle_key dbs mv 32 selected cur of
           Continue s c \<Rightarrow> c = cur \<and> length s = length selected \<and>
                           handle_key dbs mv' 32 s c = Continue selected cur
         | Finish r \<Rightarrow> False
         | Raise e \<Rightarrow> False"
proof -
  from py_index_valid [OF assms] obtain j where j: "py_index selected cur = Some j" "j < length selected"
    by blast
  then show ?thesis
    by (simp add: handle_toggle py_index_update)
qed

theorem double_toggle_identity_witness:
  "- int (length [True, False]) \<le> 1 \<and> (1::int) < int (length [True, False])
   \<and> handle_key [''a'', ''b''] 17 32 [True, False] 1 = Continue [True, True] 1
   \<and> handle_key [''a'', ''b''] 17 32 [True, True] 1 = Continue [True, False] 1"
proof -
  have a: "- int (length [True, False]) \<le> 1" by simp
  have b: "(1::int) < int (length [True, False])" by simp
  have c: "handle_key [''a'', ''b''] 17 32 [True, False] 1 = Continue [True, True] 1"
    by (simp add: handle_toggle py_index_def)
  show ?thesis
    using double_toggle_identity [OF a b, of "[''a'', ''b'']" 17 17] c by simp
qed


section \<open>Properties of the backup run\<close>

lemma attempt_results_Nil: "attempt_results resp i [] = []"
  by (simp add: attempt_results_def)

lemma attempt_results_Cons:
  "attempt_results resp i (db # dbs) = (db, succeeded (resp i)) # attempt_results resp (Suc i) dbs"
  by (simp add: attempt_results_def)

lemma attempt_results_nth:
  "k < length dbs \<Longrightarrow> attempt_results resp i dbs ! k = (dbs ! k, succeeded (resp (i + k)))"
  by (simp add: attempt_results_def nth_enumerate_eq)

lemma run_mongodump_ok: "fst (run_mongodump self r db ts fs) = succeeded r"
  by (cases r) (simp_all add: run_mongodump_def succeeded_def Let_def)

lemma run_mongodump_events:
  "fst (snd (run_mongodump self r db ts fs)) =
     [Makedirs (output_dir self @ [ts, db]), mongodump_cmd self db ts] @
     (case r of
        Exited returncode err written \<Rightarrow> if returncode = 0 then [] else [Stderr (''    Error: '' @ err)]
      | CommandNotFound \<Rightarrow> [Stderr not_found_message])"
  by (cases r) (simp_all add: run_mongodump_def Let_def)

lemma run_mongodump_disk:
  "snd (snd (run_mongodump self r db ts fs)) =
     makedirs (output_dir self @ [ts, db]) fs \<union>
     (case r of Exited returncode err written \<Rightarrow> set written | CommandNotFound \<Rightarrow> {})"
  by (cases r) (simp_all add: run_mongodump_def Let_def)

lemma spawned_dbs_append: "spawned_dbs (xs @ ys) = spawned_dbs xs @ spawned_dbs ys"
  by (simp add: spawned_dbs_def)

lemma stderr_lines_append: "stderr_lines (xs @ ys) = stderr_lines xs @ stderr_lines ys"
  by (simp add: stderr_lines_def)

lemma spawned_dbs_attempt: "spawned_dbs (fst (snd (run_mongodump self r db ts fs))) = [db]"
  by (cases r) (simp_all add: run_mongodump_events spawned_dbs_def mongodump_cmd_def)

lemma dump_loop_step:
  "dump_loop self resp ts i (db # dbs) sc fl tr fs =
     dump_loop self resp ts (Suc i) dbs
       (if succeeded (resp i) then sc + 1 else sc)
       (if succeeded (resp i) then fl else fl @ [db])
       (tr @ fst (snd (run_mongodump self (resp i) db ts fs)))
       (snd (snd (run_mongodump self (resp i) db ts fs)))"
  using run_mongodump_ok [of self "resp i" db ts fs]
  by (cases "run_mongodump self (resp i) db ts fs") auto

lemma dump_loop_count:
  "fst (dump_loop self resp ts i dbs sc fl tr fs) =
     sc + length (filter snd (attempt_results resp i dbs))"
proof (induction dbs arbitrary: i sc fl tr fs)
  case Nil
  show ?case by (simp add: attempt_results_Nil)
next
  case (Cons db dbs)
  show ?case
    by (simp only: dump_loop_step Cons.IH) (simp add: attempt_results_Cons)
qed

lemma dump_loop_failed:
  "fst (snd (dump_loop self resp ts i dbs sc fl tr fs)) =
     fl @ map fst (filter (\<lambda>x. \<not> snd x) (attempt_results resp i dbs))"
proof (induction dbs arbitrary: i sc fl tr fs)
  case Nil
  show ?case by (simp add: attempt_results_Nil)
next
  case (Cons db dbs)
  show ?case
    by (simp only: dump_loop_step Cons.IH) (simp add: attempt_results_Cons)
qed

lemma dump_loop_spawned:
  "spawned_dbs (fst (snd (snd (dump_loop self resp ts i dbs sc fl tr fs)))) =
     spawned_dbs tr @ dbs"
proof (induction dbs arbitrary: i sc fl tr fs)
  case Nil
  show ?case by simp
next
  case (Cons db dbs)
  show ?case
    by (simp only: dump_loop_step Cons.IH) (simp add: spawned_dbs_append spawned_dbs_attempt)
qed

lemma is_dump_event:
  "ev \<in> set (fst (snd (run_mongodump self r db ts fs))) \<Longrightarrow>
   (\<forall>d. ev \<noteq> Rmtree d) \<and> (\<forall>z d. ev \<noteq> ZipWrite z d) \<and> (\<forall>z. ev \<noteq> ZipAbandoned z)"
  by (cases r) (auto simp: run_mongodump_events mongodump_cmd_def split: if_splits)

lemma dump_loop_no_rmtree:
  "Rmtree d \<in> set (fst (snd (snd (dump_loop self resp ts i dbs sc fl tr fs)))) \<longleftrightarrow>
   Rmtree d \<in> set tr"
proof (induction dbs arbitrary: i sc fl tr fs)
  case Nil
  show ?case by simp
next
  case (Cons db dbs)
  show ?case
    using is_dump_event [of "Rmtree d" self "resp i" db ts fs]
    by (simp only: dump_loop_step Cons.IH) auto
qed

lemma mem_ancestors: "p \<noteq> [] \<Longrightarrow> p \<in> set (ancestors_and_self p)"
proof -
  assume "p \<noteq> []"
  then have "length p - 1 < length p" by simp
  moreover have "take (Suc (length p - 1)) p = p" using \<open>p \<noteq> []\<close> by simp
  ultimately show ?thesis
    unfolding ancestors_and_self_def by (metis (no_types, lifting) atLeastLessThan_iff
        image_eqI list.set_map set_upt zero_le)
qed

lemma mem_ancestors_prefix: "p @ [a] \<in> set (ancestors_and_self (p @ [a, b]))"
proof -
  have "take (Suc (length p)) (p @ [a, b]) = p @ [a]" by simp
  moreover have "length p < length (p @ [a, b])" by simp
  ultimately show ?thesis
    unfolding ancestors_and_self_def
    by (metis (no_types, lifting) atLeastLessThan_iff image_eqI list.set_map set_upt zero_le)
qed

lemma makedirs_creates:
  "out @ [ts, db] \<in> makedirs (out @ [ts, db]) fs"
  "out @ [ts] \<in> makedirs (out @ [ts, db]) fs"
  "fs \<subseteq> makedirs (out @ [ts, db]) fs"
  using mem_ancestors [of "out @ [ts, db]"] mem_ancestors_prefix [of out ts db]
  by (auto simp: makedirs_def)

lemma run_mongodump_disk_grows:
  "fs \<subseteq> snd (snd (run_mongodump self r db ts fs))"
  "output_dir self @ [ts, db] \<in> snd (snd (run_mongodump self r db ts fs))"
  "output_dir self @ [ts] \<in> snd (snd (run_mongodump self r db ts fs))"
  using makedirs_creates [where out = "output_dir self" and ts = ts and db = db and fs = fs]
  by (auto simp: run_mongodump_disk)

lemma dump_loop_disk_grows:
  "fs \<subseteq> snd (snd (snd (dump_loop self resp ts i dbs sc fl tr fs)))"
proof (induction dbs arbitrary: i sc fl tr fs)
  case Nil
  show ?case by simp
next
  case (Cons db dbs)
  show ?case
    using Cons.IH run_mongodump_disk_grows(1) [where fs = fs and self = self and r = "resp i" and db = db and ts = ts]
    by (simp only: dump_loop_step) blast
qed

lemma dump_loop_disk_dirs:
  "db \<in> set dbs \<Longrightarrow>
   output_dir self @ [ts, db] \<in> snd (snd (snd (dump_loop self resp ts i dbs sc fl tr fs)))
   \<and> output_dir self @ [ts] \<in> snd (snd (snd (dump_loop self resp ts i dbs sc fl tr fs)))"
proof (induction dbs arbitrary: i sc fl tr fs)
  case Nil
  then show ?case by simp
next
  case (Cons d dbs)
  show ?case
  proof (cases "db = d")
    case True
    then show ?thesis
      using run_mongodump_disk_grows(2,3) [where self = self and ts = ts and db = d and r = "resp i" and fs = fs]
        dump_loop_disk_grows [where fs = "snd (snd (run_mongodump self (resp i) d ts fs))"]
      by (simp only: dump_loop_step) blast
  next
    case False
    with Cons.prems have "db \<in> set dbs" by simp
    then show ?thesis
      unfolding dump_loop_step by (rule Cons.IH)
  qed
qed

lemma backup_databases_unfold:
  assumes "databases \<noteq> []"
  shows "backup_databases self w databases create_zip fs =
    (let ts = format_timestamp (clock_start w);
         bd = output_dir self @ [ts];
         L = dump_loop self (dump_response w) ts 0 databases 0 [] [] fs;
         A = archive_step self w bd create_zip (fst L) (snd (snd (snd L)))
     in Some \<lparr> successful = fst L, total = length databases, failed = fst (snd L),
                location = (case fst A of Some p \<Rightarrow> if create_zip then p else bd | None \<Rightarrow> bd),
                events = fst (snd (snd L)) @ fst (snd A),
                disk_after = snd (snd A) \<rparr>)"
  using assms by (simp add: backup_databases_def Let_def split: prod.splits)

lemma archive_step_skip:
  "\<not> (create_zip \<and> 0 < sc) \<Longrightarrow> archive_step self w bd create_zip sc fs = (None, [], fs)"
  by (auto simp: archive_step_def)

lemma archive_step_zip_failed:
  "create_zip \<Longrightarrow> 0 < sc \<Longrightarrow> zip_response w = ZipFailed e partial \<Longrightarrow>
   archive_step self w bd create_zip sc fs =
     (None,
      [ZipAbandoned (output_dir self @ [generate_human_readable_filename (clock_zip w)]),
       Stderr (''    Error creating zip: '' @ e)],
      if partial then insert (output_dir self @ [generate_human_readable_filename (clock_zip w)]) fs
      else fs)"
  by (simp add: archive_step_def create_zip_archive_def Let_def)

lemma archive_step_removed:
  "create_zip \<Longrightarrow> 0 < sc \<Longrightarrow> zip_response w = ZipOk \<Longrightarrow> rmtree_response w = RmOk \<Longrightarrow>
   archive_step self w bd create_zip sc fs =
     (Some (output_dir self @ [generate_human_readable_filename (clock_zip w)]),
      [ZipWrite (output_dir self @ [generate_human_readable_filename (clock_zip w)])
         (walk_files w bd fs),
       Rmtree bd],
      rmtree bd (insert (output_dir self @ [generate_human_readable_filename (clock_zip w)]) fs))"
  by (simp add: archive_step_def create_zip_archive_def Let_def)

lemma archive_step_remove_failed:
  "create_zip \<Longrightarrow> 0 < sc \<Longrightarrow> zip_response w = ZipOk \<Longrightarrow>
   rmtree_response w = RmFailed e removed \<Longrightarrow>
   archive_step self w bd create_zip sc fs =
     (Some (output_dir self @ [generate_human_readable_filename (clock_zip w)]),
      [ZipWrite (output_dir self @ [generate_human_readable_filename (clock_zip w)])
         (walk_files w bd fs),
       Rmtree bd, Stderr (cleanup_warning e)],
      insert (output_dir self @ [generate_human_readable_filename (clock_zip w)]) fs - set removed)"
  by (simp add: archive_step_def create_zip_archive_def Let_def)

lemma archive_step_path:
  "fst (archive_step self w bd create_zip sc fs) =
     (if create_zip \<and> 0 < sc \<and> zip_response w = ZipOk
      then Some (output_dir self @ [generate_human_readable_filename (clock_zip w)]) else None)"
  by (cases "zip_response w"; cases "rmtree_response w")
     (auto simp: archive_step_def create_zip_archive_def Let_def)

lemma archive_step_spawned: "spawned_dbs (fst (snd (archive_step self w bd create_zip sc fs))) = []"
  by (cases "zip_response w"; cases "rmtree_response w")
     (auto simp: archive_step_def create_zip_archive_def Let_def spawned_dbs_def)

lemma spawned_dbs_Nil: "spawned_dbs [] = []"
  by (simp add: spawned_dbs_def)

text \<open>
  Claim C1. For a non-empty list the run returns a report; the utility is started once for
  every database, in list order, whatever the earlier attempts gave (\<open>spawned_dbs\<close> of the
  events is the list itself); an attempt counts as a success exactly when the process
  exited with code 0, and every other one puts its database on the failed list, in order.
  The summary carries the total, the number of successes, the failed names, and as
  location the archive path when archiving was requested, some database succeeded and the
  archive was written, otherwise the timestamp directory.
\<close>

theorem backup_attempts_all_and_reports:
  assumes "databases \<noteq> []"
  shows "\<exists>r. backup_databases self w databases create_zip fs = Some r
     \<and> spawned_dbs (events r) = databases
     \<and> total r = length databases
     \<and> successful r = length (filter snd (attempt_results (dump_response w) 0 databases))
     \<and> failed r = map fst (filter (\<lambda>x. \<not> snd x) (attempt_results (dump_response w) 0 databases))
     \<and> successful r + length (failed r) = total r
     \<and> location r =
         (if create_zip \<and> 0 < successful r \<and> zip_response w = ZipOk
          then output_dir self @ [generate_human_readable_filename (clock_zip w)]
          else output_dir self @ [format_timestamp (clock_start w)])"
proof -
  have len: "length (filter snd (attempt_results (dump_response w) 0 databases)) +
        length (filter (\<lambda>x. \<not> snd x) (attempt_results (dump_response w) 0 databases)) =
        length databases"
    using sum_length_filter_compl [of snd "attempt_results (dump_response w) 0 databases"]
    by (simp add: attempt_results_def)
  show ?thesis
    using len
    by (simp add: backup_databases_unfold [OF assms] Let_def dump_loop_count dump_loop_failed
          dump_loop_spawned spawned_dbs_append archive_step_spawned archive_step_path
          spawned_dbs_Nil)
qed

lemma example_timestamp: "format_timestamp example_clock = ''20261104_093005''"
  by code_simp

lemma example_zip_name: "generate_human_readable_filename example_clock = ''november_4_2026_9_30_am.zip''"
  by code_simp

lemma second_fails_results:
  "attempt_results second_fails 0 [''a'', ''b'', ''c''] = [(''a'', True), (''b'', False), (''c'', True)]"
  by (simp add: attempt_results_Cons attempt_results_Nil second_fails_def succeeded_def)

lemma example_world_sel:
  "dump_response (example_world d z r) = d" "zip_response (example_world d z r) = z"
  "rmtree_response (example_world d z r) = r" "clock_start (example_world d z r) = example_clock"
  "clock_zip (example_world d z r) = example_clock" "unlistable (example_world d z r) = []"
  "regular_file (example_world d z r) = is_dump_file"
  by (simp_all add: example_world_def)

theorem backup_attempts_all_and_reports_witness:
  "[''a'', ''b'', ''c''] \<noteq> []
   \<and> map_option accounting
        (backup_databases example_tool (example_world second_fails ZipOk RmOk)
           [''a'', ''b'', ''c''] False {})
      = Some (2, 3, [''b''], [''backups'', ''20261104_093005''])
   \<and> map_option (spawned_dbs \<circ> events)
        (backup_databases example_tool (example_world second_fails ZipOk RmOk)
           [''a'', ''b'', ''c''] False {})
      = Some [''a'', ''b'', ''c'']
   \<and> map_option location
        (backup_databases example_tool (example_world second_fails ZipOk RmOk)
           [''a'', ''b'', ''c''] True {})
      = Some [''backups'', ''november_4_2026_9_30_am.zip'']"
proof -
  have ne: "[''a'', ''b'', ''c''] \<noteq> []" by simp
  from backup_attempts_all_and_reports [OF ne, of example_tool "example_world second_fails ZipOk RmOk" False "{}"]
  have a: "map_option accounting
        (backup_databases example_tool (example_world second_fails ZipOk RmOk)
           [''a'', ''b'', ''c''] False {})
      = Some (2, 3, [''b''], [''backups'', ''20261104_093005''])"
    and b: "map_option (spawned_dbs \<circ> events)
        (backup_databases example_tool (example_world second_fails ZipOk RmOk)
           [''a'', ''b'', ''c''] False {})
      = Some [''a'', ''b'', ''c'']"
    by (auto simp: accounting_def example_world_sel second_fails_results example_timestamp
          example_tool_def)
  from backup_attempts_all_and_reports [OF ne, of example_tool "example_world second_fails ZipOk RmOk" True "{}"]
  have c: "map_option location
        (backup_databases example_tool (example_world second_fails ZipOk RmOk)
           [''a'', ''b'', ''c''] True {})
      = Some [''backups'', ''november_4_2026_9_30_am.zip'']"
    by (auto simp: example_world_sel second_fails_results example_zip_name example_tool_def)
  show ?thesis using a b c by simp
qed

lemma attempt_results_all_fail:
  "\<forall>k < length dbs. \<not> succeeded (resp (i + k)) \<Longrightarrow>
   filter snd (attempt_results resp i dbs) = [] \<and>
   map fst (filter (\<lambda>x. \<not> snd x) (attempt_results resp i dbs)) = dbs"
proof (induction dbs arbitrary: i)
  case Nil
  show ?case by (simp add: attempt_results_Nil)
next
  case (Cons db dbs)
  from Cons.prems have h: "\<not> succeeded (resp i)" by force
  have "\<forall>k < length dbs. \<not> succeeded (resp (Suc i + k))"
  proof (intro allI impI)
    fix k assume "k < length dbs"
    then have "Suc k < length (db # dbs)" by simp
    with Cons.prems have "\<not> succeeded (resp (i + Suc k))" by blast
    then show "\<not> succeeded (resp (Suc i + k))" by simp
  qed
  from Cons.IH [OF this] h show ?case by (simp add: attempt_results_Cons)
qed

lemma stderr_not_found:
  "stderr_lines (fst (snd (run_mongodump self CommandNotFound db ts fs))) = [not_found_message]"
  by (simp add: run_mongodump_events stderr_lines_def mongodump_cmd_def)

lemma dump_loop_stderr_not_found:
  "\<forall>k < length dbs. resp (i + k) = CommandNotFound \<Longrightarrow>
   stderr_lines (fst (snd (snd (dump_loop self resp ts i dbs sc fl tr fs)))) =
     stderr_lines tr @ replicate (length dbs) not_found_message"
proof (induction dbs arbitrary: i sc fl tr fs)
  case Nil
  show ?case by simp
next
  case (Cons db dbs)
  from Cons.prems have h: "resp i = CommandNotFound" by force
  have rest: "\<forall>k < length dbs. resp (Suc i + k) = CommandNotFound"
  proof (intro allI impI)
    fix k assume "k < length dbs"
    then have "Suc k < length (db # dbs)" by simp
    with Cons.prems have "resp (i + Suc k) = CommandNotFound" by blast
    then show "resp (Suc i + k) = CommandNotFound" by simp
  qed
  show ?case
    unfolding dump_loop_step Cons.IH [OF rest]
    by (simp add: h stderr_lines_append stderr_not_found replicate_append_same)
qed

text \<open>
  Claim C10. An attempt first creates \<open>output_dir/timestamp/database\<close> and only then starts
  the utility; whatever the utility does (exit 0, exit nonzero, not found), that directory
  and the timestamp directory exist afterwards and nothing that existed is lost. When
  every dump of a run fails, the report still shows the timestamp directory and every
  per-database directory on disk.
\<close>

theorem per_database_directory_created_first:
  "(case run_mongodump self response database timestamp fs of
      (ok, evs, fs') \<Rightarrow>
        take 2 evs = [Makedirs (output_dir self @ [timestamp, database]),
                      mongodump_cmd self database timestamp]
        \<and> output_dir self @ [timestamp, database] \<in> fs'
        \<and> output_dir self @ [timestamp] \<in> fs'
        \<and> fs \<subseteq> fs')
   \<and> (databases \<noteq> [] \<longrightarrow> (\<forall>k < length databases. \<not> succeeded (dump_response w k)) \<longrightarrow>
        (\<exists>r. backup_databases self w databases create_zip fs = Some r
           \<and> successful r = 0
           \<and> output_dir self @ [format_timestamp (clock_start w)] \<in> disk_after r
           \<and> (\<forall>db \<in> set databases.
                 output_dir self @ [format_timestamp (clock_start w), db] \<in> disk_after r)))"
proof -
  have one: "case run_mongodump self response database timestamp fs of
      (ok, evs, fs') \<Rightarrow>
        take 2 evs = [Makedirs (output_dir self @ [timestamp, database]),
                      mongodump_cmd self database timestamp]
        \<and> output_dir self @ [timestamp, database] \<in> fs'
        \<and> output_dir self @ [timestamp] \<in> fs'
        \<and> fs \<subseteq> fs'"
    using run_mongodump_events [of self response database timestamp fs]
      run_mongodump_disk_grows [where self = self and r = response and db = database
        and ts = timestamp and fs = fs]
    by (cases "run_mongodump self response database timestamp fs") auto
  have run: "\<exists>r. backup_databases self w databases create_zip fs = Some r
           \<and> successful r = 0
           \<and> output_dir self @ [format_timestamp (clock_start w)] \<in> disk_after r
           \<and> (\<forall>db \<in> set databases.
                 output_dir self @ [format_timestamp (clock_start w), db] \<in> disk_after r)"
    if ne: "databases \<noteq> []" and fail: "\<forall>k < length databases. \<not> succeeded (dump_response w k)"
  proof -
    from fail have "\<forall>k < length databases. \<not> succeeded (dump_response w (0 + k))" by simp
    from attempt_results_all_fail [OF this]
    have zero: "filter snd (attempt_results (dump_response w) 0 databases) = []" by simp
    from ne obtain d where d: "d \<in> set databases" by (cases databases) auto
    show ?thesis
      using dump_loop_disk_dirs [where self = self and ts = "format_timestamp (clock_start w)"
          and resp = "dump_response w" and i = 0 and dbs = databases and sc = 0 and fl = "[]"
          and tr = "[]" and fs = fs] d
      by (simp add: backup_databases_unfold [OF ne] Let_def dump_loop_count zero archive_step_skip)
  qed
  show ?thesis using one run by blast
qed

theorem per_database_directory_created_first_witness:
  "[''a'', ''b''] \<noteq> []
   \<and> \<not> succeeded (dump_response (example_world never_found ZipOk RmOk) 0)
   \<and> \<not> succeeded (dump_response (example_world never_found ZipOk RmOk) 1)
   \<and> (case backup_databases example_tool (example_world never_found ZipOk RmOk) [''a'', ''b''] True {} of
         Some r \<Rightarrow> successful r = 0
            \<and> [''backups'', ''20261104_093005''] \<in> disk_after r
            \<and> [''backups'', ''20261104_093005'', ''a''] \<in> disk_after r
            \<and> [''backups'', ''20261104_093005'', ''b''] \<in> disk_after r
       | None \<Rightarrow> False)"
proof -
  have ne: "[''a'', ''b''] \<noteq> []" by simp
  have nf: "\<And>k. \<not> succeeded (dump_response (example_world never_found ZipOk RmOk) k)"
    by (simp add: example_world_sel never_found_def succeeded_def)
  from per_database_directory_created_first
    [where self = example_tool and response = CommandNotFound and database = "''a''"
       and timestamp = "''t''" and fs = "{}" and databases = "[''a'', ''b'']"
       and w = "example_world never_found ZipOk RmOk" and create_zip = True]
  show ?thesis
    using ne nf by (auto simp: example_world_sel example_timestamp example_tool_def)
qed

lemma not_found_attempt:
  "run_mongodump self CommandNotFound db ts fs =
     (False,
      [Makedirs (output_dir self @ [ts, db]), mongodump_cmd self db ts, Stderr not_found_message],
      makedirs (output_dir self @ [ts, db]) fs)"
  by (simp add: run_mongodump_def Let_def)

lemma archive_step_stderr_skip:
  "stderr_lines (fst (snd (archive_step self w bd create_zip 0 fs))) = []"
  by (simp add: archive_step_skip stderr_lines_def)

text \<open>
  Claim C3 (once the utility is found missing, the reason is applied to the remaining
  databases without starting the utility for them). The loop keeps no memory of the
  failure: with the utility missing and two databases, the run starts the utility for the
  second database too, after the first start was answered by "not found".
\<close>

theorem missing_tool_still_started_for_rest:
  "dump_response (example_world never_found ZipOk RmOk) 0 = CommandNotFound
   \<and> map_option events
        (backup_databases example_tool (example_world never_found ZipOk RmOk) [''a'', ''b''] False {})
     = Some [Makedirs [''backups'', ''20261104_093005'', ''a''],
             mongodump_cmd example_tool ''a'' ''20261104_093005'',
             Stderr not_found_message,
             Makedirs [''backups'', ''20261104_093005'', ''b''],
             mongodump_cmd example_tool ''b'' ''20261104_093005'',
             Stderr not_found_message]
   \<and> spawned_db (mongodump_cmd example_tool ''b'' ''20261104_093005'') = [''b'']"
  by (simp add: backup_databases_def example_world_sel never_found_def not_found_attempt
        example_timestamp archive_step_skip example_tool_def mongodump_cmd_def Let_def)

text \<open>
  Claim C3, amended. When the utility is missing, every database is still attempted, once
  each and in order; each attempt ends in the branch for a missing executable, which
  writes the fixed line \<open>not_found_message\<close> to the error stream and returns failure; no
  database succeeds, all are on the failed list, and the location is the timestamp
  directory. The orchestrator records the name only, not a reason.
\<close>

theorem missing_tool_every_database_attempted:
  assumes "databases \<noteq> []"
    and "\<forall>k < length databases. dump_response w k = CommandNotFound"
  shows "\<exists>r. backup_databases self w databases create_zip fs = Some r
     \<and> spawned_dbs (events r) = databases
     \<and> stderr_lines (events r) = replicate (length databases) not_found_message
     \<and> successful r = 0
     \<and> total r = length databases
     \<and> failed r = databases
     \<and> location r = output_dir self @ [format_timestamp (clock_start w)]"
proof -
  from assms(2) have nf: "\<forall>k < length databases. dump_response w (0 + k) = CommandNotFound"
    by simp
  then have "\<forall>k < length databases. \<not> succeeded (dump_response w (0 + k))"
    by (simp add: succeeded_def)
  from attempt_results_all_fail [OF this]
  have zero: "filter snd (attempt_results (dump_response w) 0 databases) = []"
    and all: "map fst (filter (\<lambda>x. \<not> snd x) (attempt_results (dump_response w) 0 databases)) = databases"
    by simp_all
  have lines: "stderr_lines [] = []" by (simp add: stderr_lines_def)
  show ?thesis
    by (simp add: backup_databases_unfold [OF assms(1)] Let_def dump_loop_count dump_loop_failed
          dump_loop_spawned spawned_dbs_append spawned_dbs_Nil zero all archive_step_skip
          stderr_lines_append dump_loop_stderr_not_found [OF nf] lines)
qed

theorem missing_tool_every_database_attempted_witness:
  "[''a'', ''b''] \<noteq> []
   \<and> dump_response (example_world never_found ZipOk RmOk) 0 = CommandNotFound
   \<and> dump_response (example_world never_found ZipOk RmOk) 1 = CommandNotFound
   \<and> (case backup_databases example_tool (example_world never_found ZipOk RmOk) [''a'', ''b''] True {} of
         Some r \<Rightarrow> spawned_dbs (events r) = [''a'', ''b'']
            \<and> stderr_lines (events r) = [not_found_message, not_found_message]
            \<and> accounting r = (0, 2, [''a'', ''b''], [''backups'', ''20261104_093005''])
       | None \<Rightarrow> False)"
proof -
  have ne: "[''a'', ''b''] \<noteq> []" by simp
  have nf: "\<forall>k < length [''a'', ''b'']. dump_response (example_world never_found ZipOk RmOk) k = CommandNotFound"
    by (simp add: example_world_sel never_found_def)
  from missing_tool_every_database_attempted [OF ne nf, of example_tool True "{}"]
  show ?thesis
    by (auto simp: example_world_sel never_found_def accounting_def example_timestamp
          example_tool_def numeral_2_eq_2)
qed

subsection \<open>Archiving and cleanup\<close>

lemma archive_step_rmtree:
  "Rmtree bd \<in> set (fst (snd (archive_step self w bd create_zip sc fs))) \<longleftrightarrow>
   create_zip \<and> 0 < sc \<and> zip_response w = ZipOk"
  by (cases "zip_response w"; cases "rmtree_response w")
     (auto simp: archive_step_def create_zip_archive_def Let_def)

lemma archive_step_keeps:
  "\<not> (create_zip \<and> 0 < sc \<and> zip_response w = ZipOk) \<Longrightarrow>
   fs \<subseteq> snd (snd (archive_step self w bd create_zip sc fs))"
  by (cases "zip_response w"; cases "rmtree_response w")
     (auto simp: archive_step_def create_zip_archive_def Let_def)

lemma rmtree_nothing_under: "q \<in> rmtree d fs \<Longrightarrow> \<not> is_under d q"
  by (simp add: rmtree_def)

lemma dec_not_empty: "dec n \<noteq> []"
  by (subst dec.simps) simp

lemma last_dec: "last (dec n) = digit_char (n mod 10)"
  by (subst dec.simps) (simp add: dec_not_empty)

lemma digit_char_is_digit: "digit_char (n mod 10) \<in> set ''0123456789''"
proof -
  have "n mod 10 < length ''0123456789''" by simp
  then show ?thesis unfolding digit_char_def by (rule nth_mem)
qed

lemma last_timestamp: "last (format_timestamp now) = digit_char (second now mod 10)"
  by (simp add: format_timestamp_def zero_pad_def dec_not_empty last_dec)

lemma last_zip_name: "last (generate_human_readable_filename now) = CHR ''p''"
  by (simp add: generate_human_readable_filename_def Let_def split: prod.splits)

lemma zip_name_not_timestamp: "generate_human_readable_filename t \<noteq> format_timestamp t'"
proof
  assume "generate_human_readable_filename t = format_timestamp t'"
  then have "last (format_timestamp t') = CHR ''p''" using last_zip_name [of t] by simp
  then have "CHR ''p'' \<in> set ''0123456789''"
    using digit_char_is_digit [of "second t'"] by (simp only: last_timestamp)
  then show False by simp
qed

lemma archive_not_under_tree:
  "\<not> is_under (out @ [format_timestamp t']) (out @ [generate_human_readable_filename t])"
  using zip_name_not_timestamp [of t t'] by (simp add: is_under_def)

lemma archive_survives_rmtree:
  "out @ [generate_human_readable_filename t] \<in>
     rmtree (out @ [format_timestamp t']) (insert (out @ [generate_human_readable_filename t]) fs)"
  using archive_not_under_tree [of out t' t] by (simp add: rmtree_def)

lemma backup_databases_accounting:
  assumes "databases \<noteq> []"
  shows "map_option accounting (backup_databases self w databases create_zip fs) =
    Some (length (filter snd (attempt_results (dump_response w) 0 databases)),
          length databases,
          map fst (filter (\<lambda>x. \<not> snd x) (attempt_results (dump_response w) 0 databases)),
          if create_zip \<and> filter snd (attempt_results (dump_response w) 0 databases) \<noteq> []
               \<and> zip_response w = ZipOk
          then output_dir self @ [generate_human_readable_filename (clock_zip w)]
          else output_dir self @ [format_timestamp (clock_start w)])"
  by (simp add: backup_databases_unfold [OF assms] Let_def accounting_def dump_loop_count
        dump_loop_failed archive_step_path)

text \<open>
  What the archive step does, read off the run. \<open>dumped\<close> and \<open>fs1\<close> are the events and
  the disk after the dump loop. The tree is removed exactly when archiving was requested,
  some database succeeded and no call of \<^verbatim>\<open>create_zip_archive\<close> raised; then the archive
  was completed first, with the files the walk reached, it is on disk, and after a
  successful removal it is still there while nothing under the tree is. In every other
  case the whole disk after the dumps is kept. When a call raises, the error line is
  written, nothing is removed and the location is the tree. When the removal fails, a
  warning is written and the figures of the summary are what they are for any other end
  of the removal.
\<close>

lemma cleanup_follows_archive_result:
  assumes "databases \<noteq> []"
    and "bd = output_dir self @ [format_timestamp (clock_start w)]"
    and "zp = output_dir self @ [generate_human_readable_filename (clock_zip w)]"
    and "L = dump_loop self (dump_response w) (format_timestamp (clock_start w)) 0 databases 0 [] [] fs"
    and "dumped = fst (snd (snd L))"
    and "fs1 = snd (snd (snd L))"
  shows "\<exists>r. backup_databases self w databases create_zip fs = Some r
     \<and> (Rmtree bd \<in> set (events r) \<longleftrightarrow>
          create_zip \<and> 0 < successful r \<and> zip_response w = ZipOk)
     \<and> (create_zip \<and> 0 < successful r \<and> zip_response w = ZipOk \<longrightarrow>
          take (length dumped + 2) (events r) = dumped @ [ZipWrite zp (walk_files w bd fs1), Rmtree bd])
     \<and> (create_zip \<and> 0 < successful r \<and> zip_response w = ZipOk \<and> rmtree_response w = RmOk \<longrightarrow>
          disk_after r = rmtree bd (insert zp fs1)
          \<and> zp \<in> disk_after r
          \<and> (\<forall>q \<in> disk_after r. \<not> is_under bd q))
     \<and> (\<not> (create_zip \<and> 0 < successful r \<and> zip_response w = ZipOk) \<longrightarrow>
          fs1 \<subseteq> disk_after r
          \<and> bd \<in> disk_after r
          \<and> (\<forall>db \<in> set databases. bd @ [db] \<in> disk_after r))
     \<and> (\<forall>e partial. create_zip \<and> 0 < successful r \<and> zip_response w = ZipFailed e partial \<longrightarrow>
          events r = dumped @ [ZipAbandoned zp, Stderr (''    Error creating zip: '' @ e)]
          \<and> location r = bd)
     \<and> (\<forall>e removed. create_zip \<and> 0 < successful r \<and> zip_response w = ZipOk
            \<and> rmtree_response w = RmFailed e removed \<longrightarrow>
          events r = dumped @ [ZipWrite zp (walk_files w bd fs1), Rmtree bd, Stderr (cleanup_warning e)]
          \<and> location r = zp)
     \<and> (\<forall>x. map_option accounting
               (backup_databases self (w\<lparr>rmtree_response := x\<rparr>) databases create_zip fs)
             = Some (accounting r))"
proof -
  define ts where "ts = format_timestamp (clock_start w)"
  define sc where "sc = fst L"
  define A where "A = archive_step self w bd create_zip sc fs1"
  define r where "r = \<lparr> successful = sc, total = length databases, failed = fst (snd L),
      location = (case fst A of Some p \<Rightarrow> if create_zip then p else bd | None \<Rightarrow> bd),
      events = dumped @ fst (snd A), disk_after = snd (snd A) \<rparr>"
  have bd: "bd = output_dir self @ [ts]" by (simp add: assms(2) ts_def)
  have run: "backup_databases self w databases create_zip fs = Some r"
    unfolding r_def A_def sc_def assms(2-6)
    by (simp add: backup_databases_unfold [OF assms(1)] Let_def)
  have sel: "successful r = sc" "events r = dumped @ fst (snd A)" "disk_after r = snd (snd A)"
    "location r = (case fst A of Some p \<Rightarrow> if create_zip then p else bd | None \<Rightarrow> bd)"
    by (simp_all add: r_def)
  have no_rm: "Rmtree bd \<notin> set dumped"
    by (simp add: assms(4,5) dump_loop_no_rmtree)
  have c1: "Rmtree bd \<in> set (events r) \<longleftrightarrow> create_zip \<and> 0 < successful r \<and> zip_response w = ZipOk"
    using no_rm by (simp add: sel A_def archive_step_rmtree)
  have c2: "take (length dumped + 2) (events r) = dumped @ [ZipWrite zp (walk_files w bd fs1), Rmtree bd]"
    if "create_zip \<and> 0 < successful r \<and> zip_response w = ZipOk"
    using that
    by (cases "rmtree_response w")
       (simp_all add: sel A_def archive_step_removed archive_step_remove_failed assms(3))
  have c3: "disk_after r = rmtree bd (insert zp fs1) \<and> zp \<in> disk_after r
        \<and> (\<forall>q \<in> disk_after r. \<not> is_under bd q)"
    if "create_zip \<and> 0 < successful r \<and> zip_response w = ZipOk \<and> rmtree_response w = RmOk"
    using that archive_survives_rmtree [of "output_dir self" "clock_zip w" "clock_start w" fs1]
    by (auto simp: sel A_def archive_step_removed assms(2,3) dest: rmtree_nothing_under)
  have dirs: "bd \<in> fs1 \<and> (\<forall>db \<in> set databases. bd @ [db] \<in> fs1)"
  proof -
    from assms(1) obtain d where "d \<in> set databases" by (cases databases) auto
    then show ?thesis
      using dump_loop_disk_dirs [where self = self and ts = ts and resp = "dump_response w"
          and i = 0 and dbs = databases and sc = 0 and fl = "[]" and tr = "[]" and fs = fs]
      by (simp add: assms(4,6) bd ts_def)
  qed
  have c4: "fs1 \<subseteq> disk_after r \<and> bd \<in> disk_after r \<and> (\<forall>db \<in> set databases. bd @ [db] \<in> disk_after r)"
    if "\<not> (create_zip \<and> 0 < successful r \<and> zip_response w = ZipOk)"
  proof -
    from that have "fs1 \<subseteq> disk_after r"
      by (simp add: sel A_def archive_step_keeps)
    with dirs show ?thesis by blast
  qed
  have c5: "events r = dumped @ [ZipAbandoned zp, Stderr (''    Error creating zip: '' @ e)]
        \<and> location r = bd"
    if "create_zip \<and> 0 < successful r \<and> zip_response w = ZipFailed e partial" for e partial
    using that by (simp add: sel A_def archive_step_zip_failed assms(3))
  have c6: "events r = dumped @ [ZipWrite zp (walk_files w bd fs1), Rmtree bd, Stderr (cleanup_warning e)]
        \<and> location r = zp"
    if "create_zip \<and> 0 < successful r \<and> zip_response w = ZipOk \<and> rmtree_response w = RmFailed e removed"
    for e removed
    using that by (simp add: sel A_def archive_step_remove_failed assms(3))
  have acc: "map_option accounting (backup_databases self w databases create_zip fs) = Some (accounting r)"
    by (simp add: run)
  have c7: "map_option accounting
               (backup_databases self (w\<lparr>rmtree_response := x\<rparr>) databases create_zip fs)
             = Some (accounting r)" for x
  proof -
    have "map_option accounting
            (backup_databases self (w\<lparr>rmtree_response := x\<rparr>) databases create_zip fs)
          = map_option accounting (backup_databases self w databases create_zip fs)"
      by (simp add: backup_databases_accounting [OF assms(1)])
    with acc show ?thesis by (rule ssubst [where P = "\<lambda>v. v = Some (accounting r)", rotated])
  qed
  show ?thesis
    using run c1 c2 c3 c4 c5 c6 c7 by (intro exI [of _ r]) blast
qed

subsection \<open>A directory that cannot be listed\<close>

lemma listing_fails_world_sel:
  "dump_response (listing_fails_world x) = writes_dump_file"
  "zip_response (listing_fails_world x) = ZipOk"
  "rmtree_response (listing_fails_world x) = x"
  "clock_start (listing_fails_world x) = example_clock"
  "clock_zip (listing_fails_world x) = example_clock"
  "unlistable (listing_fails_world x) = [[''backups'', ''20261104_093005'', ''a'']]"
  "regular_file (listing_fails_world x) = is_dump_file"
  by (simp_all add: listing_fails_world_def)

lemma walk_reaches_nothing: "walk_files (listing_fails_world x) src fs = {}"
  by (auto simp: walk_files_def listing_fails_world_sel is_dump_file_def dump_file_def is_under_def)

lemma walk_reaches_dump_file:
  "dump_file \<in> fs \<Longrightarrow>
   dump_file \<in> walk_files (example_world d z x) [''backups'', ''20261104_093005''] fs"
  by (simp add: walk_files_def example_world_sel is_dump_file_def dump_file_def is_under_def)

lemma dump_writes_file:
  "output_dir self = [''backups''] \<Longrightarrow>
   run_mongodump self (writes_dump_file i) ''a'' ''20261104_093005'' fs =
     (True,
      [Makedirs [''backups'', ''20261104_093005'', ''a''],
       mongodump_cmd self ''a'' ''20261104_093005''],
      insert dump_file (makedirs [''backups'', ''20261104_093005'', ''a''] fs))"
  by (simp add: run_mongodump_def writes_dump_file_def Let_def)

lemma dump_file_under_tree: "is_under [''backups'', ''20261104_093005''] dump_file"
  by (simp add: is_under_def dump_file_def)

text \<open>
  Claim C2 (the tree is deleted only after the archive was created without error; any I/O
  failure while the archive is written abandons archiving, is reported, and keeps the
  tree). A failure that raises is handled so, as the lemma above shows. A failure to list
  a directory during the walk raises nothing, because \<^verbatim>\<open>os.walk\<close> is called without an
  \<^verbatim>\<open>onerror\<close> handler: with one database whose dump wrote \<open>dump_file\<close> and whose
  directory cannot be listed, the file is on disk after the dump, the archive is
  completed without it, nothing is written to the error stream, the tree is removed, the
  file is gone, and the summary names the archive as the location. When the removal
  fails as well, the only line on the error stream is the cleanup warning.
\<close>

theorem listing_failure_unreported_tree_deleted:
  "unlistable (listing_fails_world RmOk) = [[''backups'', ''20261104_093005'', ''a'']]
   \<and> (case backup_databases example_tool (listing_fails_world RmOk) [''a''] False {} of
         Some r \<Rightarrow> successful r = 1 \<and> dump_file \<in> disk_after r
       | None \<Rightarrow> False)
   \<and> (case backup_databases example_tool (listing_fails_world RmOk) [''a''] True {} of
         Some r \<Rightarrow>
           events r =
             [Makedirs [''backups'', ''20261104_093005'', ''a''],
              mongodump_cmd example_tool ''a'' ''20261104_093005'',
              ZipWrite [''backups'', ''november_4_2026_9_30_am.zip''] {},
              Rmtree [''backups'', ''20261104_093005'']]
           \<and> stderr_lines (events r) = []
           \<and> dump_file \<notin> disk_after r
           \<and> accounting r = (1, 1, [], [''backups'', ''november_4_2026_9_30_am.zip''])
       | None \<Rightarrow> False)
   \<and> (case backup_databases example_tool (listing_fails_world (RmFailed ''busy'' [])) [''a''] True {} of
         Some r \<Rightarrow>
           events r =
             [Makedirs [''backups'', ''20261104_093005'', ''a''],
              mongodump_cmd example_tool ''a'' ''20261104_093005'',
              ZipWrite [''backups'', ''november_4_2026_9_30_am.zip''] {},
              Rmtree [''backups'', ''20261104_093005''],
              Stderr (cleanup_warning ''busy'')]
           \<and> accounting r = (1, 1, [], [''backups'', ''november_4_2026_9_30_am.zip''])
       | None \<Rightarrow> False)"
proof -
  have a: "case backup_databases example_tool (listing_fails_world RmOk) [''a''] False {} of
         Some r \<Rightarrow> successful r = 1 \<and> dump_file \<in> disk_after r
       | None \<Rightarrow> False"
    by (simp add: backup_databases_def Let_def listing_fails_world_sel example_timestamp
          dump_writes_file archive_step_skip example_tool_def)
  have b: "case backup_databases example_tool (listing_fails_world RmOk) [''a''] True {} of
         Some r \<Rightarrow>
           events r =
             [Makedirs [''backups'', ''20261104_093005'', ''a''],
              mongodump_cmd example_tool ''a'' ''20261104_093005'',
              ZipWrite [''backups'', ''november_4_2026_9_30_am.zip''] {},
              Rmtree [''backups'', ''20261104_093005'']]
           \<and> stderr_lines (events r) = []
           \<and> dump_file \<notin> disk_after r
           \<and> accounting r = (1, 1, [], [''backups'', ''november_4_2026_9_30_am.zip''])
       | None \<Rightarrow> False"
    using dump_file_under_tree
    by (simp add: backup_databases_def Let_def listing_fails_world_sel example_timestamp
          dump_writes_file archive_step_removed example_tool_def example_zip_name
          walk_reaches_nothing stderr_lines_def mongodump_cmd_def accounting_def rmtree_def
          example_tool_def)
  have c: "case backup_databases example_tool (listing_fails_world (RmFailed ''busy'' [])) [''a''] True {} of
         Some r \<Rightarrow>
           events r =
             [Makedirs [''backups'', ''20261104_093005'', ''a''],
              mongodump_cmd example_tool ''a'' ''20261104_093005'',
              ZipWrite [''backups'', ''november_4_2026_9_30_am.zip''] {},
              Rmtree [''backups'', ''20261104_093005''],
              Stderr (cleanup_warning ''busy'')]
           \<and> accounting r = (1, 1, [], [''backups'', ''november_4_2026_9_30_am.zip''])
       | None \<Rightarrow> False"
    by (simp add: backup_databases_def Let_def listing_fails_world_sel example_timestamp
          dump_writes_file archive_step_remove_failed example_tool_def example_zip_name
          walk_reaches_nothing accounting_def)
  show ?thesis using a b c by (simp add: listing_fails_world_sel)
qed

text \<open>Without the listing failure the same run puts the file in the archive.\<close>

lemma listing_works_file_archived:
  "case backup_databases example_tool (example_world writes_dump_file ZipOk RmOk) [''a''] True {} of
     Some r \<Rightarrow>
       events r ! 2 =
         ZipWrite [''backups'', ''november_4_2026_9_30_am.zip'']
           (walk_files (example_world writes_dump_file ZipOk RmOk) [''backups'', ''20261104_093005'']
              (insert dump_file (makedirs [''backups'', ''20261104_093005'', ''a''] {})))
       \<and> dump_file \<in>
           walk_files (example_world writes_dump_file ZipOk RmOk) [''backups'', ''20261104_093005'']
             (insert dump_file (makedirs [''backups'', ''20261104_093005'', ''a''] {}))
   | None \<Rightarrow> False"
  using walk_reaches_dump_file [of "insert dump_file (makedirs [''backups'', ''20261104_093005'', ''a''] {})"
      writes_dump_file ZipOk RmOk]
  by (simp add: backup_databases_def Let_def example_world_sel example_timestamp
        dump_writes_file archive_step_removed example_tool_def example_zip_name)

end
